theory Spec2Isabelle
  imports Main "HOL-Library.Word" "HOL-Library.Signed_Division"
begin

section \<open>Images and their buffers (glados/Image.h)\<close>

text \<open>
  \<open>size_type\<close> is the \<open>std::size_t\<close> of the memory managers (64 bit), an
  \<open>unsigned int\<close> has 32 bits. A buffer pointer is an address into a store of
  buffers, \<open>None\<close> is \<open>nullptr\<close>. The time stamp counts ticks of the clock, the
  default constructed \<open>time_point\<close> is the epoch. The device identifier is the one
  the \<open>MemoryManager\<close> base class of an Image holds (\<open>device()\<close>, \<open>setDevice\<close>).
\<close>

type_synonym size_type = "64 word"
type_synonym uint = "32 word"
type_synonym addr = nat
type_synonym time_point = nat

text \<open>The members \<open>size_\<close>, \<open>index_\<close>, ... of the class carry the prefix \<open>img_\<close> here instead of
  the trailing underscore.\<close>

record image =
  img_size :: size_type
  img_index :: size_type
  img_plane :: size_type
  img_data :: "addr option"
  img_memoryPoolIndex :: size_type
  img_start :: time_point
  img_valid :: bool
  img_device :: int

text \<open>
  The store of buffers: address \<open>a\<close> is the \<open>a\<close>-th buffer ever allocated, a
  released buffer is \<open>None\<close>. An allocation therefore always yields an address that
  no live pointer holds.
\<close>

type_synonym 'v store = "'v list option list"

datatype error =
    OutOfBounds
  | OutOfRange string
  | RuntimeError string
  | SystemError
  | Deadlock
  | DivisionByZero
  | IntOverflow
  | BadAlloc

definition buffer :: "'v store \<Rightarrow> addr \<Rightarrow> 'v list option" where
  "buffer h a = (if a < length h then h ! a else None)"

text \<open>\<open>MemoryManager::make_ptr(n)\<close>: a new buffer of \<open>n\<close> elements (zero stands for
  the uninitialised content).\<close>

definition make_ptr :: "nat \<Rightarrow> 'v::zero store \<Rightarrow> addr \<times> 'v store" where
  "make_ptr n h = (length h, h @ [Some (replicate n 0)])"


text \<open>Releasing the buffer a pointer owned (the pointer's deleter).\<close>

definition release :: "addr option \<Rightarrow> 'v store \<Rightarrow> 'v store" where
  "release p h = (case p of None \<Rightarrow> h | Some a \<Rightarrow> if a < length h then h[a := None] else h)"

text \<open>\<open>Image()\<close>: the invalid Image, used as the end-of-stream sentinel.\<close>

definition Image_default :: image where
  "Image_default =
     \<lparr>img_size = 0, img_index = 0, img_plane = 0, img_data = None, img_memoryPoolIndex = 0,
      img_start = 0, img_valid = False, img_device = 0\<rparr>"

text \<open>\<open>Image(size, idx, planeID, img_data)\<close>.\<close>

definition Image_new ::
  "size_type \<Rightarrow> size_type \<Rightarrow> size_type \<Rightarrow> addr option \<Rightarrow> 'v::zero store \<Rightarrow> image \<times> 'v store" where
  "Image_new sz idx planeID ptr h =
     (let img = \<lparr>img_size = sz, img_index = idx, img_plane = planeID, img_data = ptr,
                 img_memoryPoolIndex = 0, img_start = 0, img_valid = True, img_device = 0\<rparr>
      in case ptr of
           None \<Rightarrow> (let (a, h') = make_ptr (unat sz) h in (img\<lparr>img_data := Some a\<rparr>, h'))
         | Some _ \<Rightarrow> (img, h))"


text \<open>The move constructor \<open>Image(Image&& other)\<close>: returns the new Image and what is
  left of \<open>other\<close>, whose pointer has been moved from.\<close>

definition Image_move :: "image \<Rightarrow> image \<times> image" where
  "Image_move other =
     (\<lparr>img_size = img_size other, img_index = img_index other, img_plane = img_plane other,
       img_data = img_data other, img_memoryPoolIndex = img_memoryPoolIndex other,
       img_start = img_start other, img_valid = img_valid other, img_device = img_device other\<rparr>,
      other\<lparr>img_data := None, img_valid := False\<rparr>)"

text \<open>Move assignment \<open>operator=(Image&& rhs)\<close> to a distinct object: the buffer the
  destination owned before is released by the pointer assignment.\<close>

definition Image_move_assign :: "image \<Rightarrow> image \<Rightarrow> 'v store \<Rightarrow> image \<times> image \<times> 'v store" where
  "Image_move_assign this rhs h =
     (this\<lparr>img_size := img_size rhs, img_index := img_index rhs, img_data := img_data rhs,
            img_plane := img_plane rhs, img_valid := img_valid rhs, img_start := img_start rhs,
            img_memoryPoolIndex := img_memoryPoolIndex rhs, img_device := img_device rhs\<rparr>,
      rhs\<lparr>img_data := None, img_valid := False\<rparr>,
      release (img_data this) h)"

text \<open>The metadata mutators. \<open>setIdx\<close> takes an \<open>unsigned int\<close>: a caller passing a
  \<open>size_type\<close> narrows it to 32 bits first.\<close>

definition setIdx :: "uint \<Rightarrow> image \<Rightarrow> image" where
  "setIdx idx img = img\<lparr>img_index := ucast idx\<rparr>"

definition setPlane :: "size_type \<Rightarrow> image \<Rightarrow> image" where
  "setPlane plane img = img\<lparr>img_plane := plane\<rparr>"

definition setMemPoolIdx :: "uint \<Rightarrow> image \<Rightarrow> image" where
  "setMemPoolIdx idx img = img\<lparr>img_memoryPoolIndex := ucast idx\<rparr>"

definition setStart :: "time_point \<Rightarrow> image \<Rightarrow> image" where
  "setStart start img = img\<lparr>img_start := start\<rparr>"

definition setDevice :: "int \<Rightarrow> image \<Rightarrow> image" where
  "setDevice d img = img\<lparr>img_device := d\<rparr>"

definition invalid :: "image \<Rightarrow> image" where
  "invalid img = img\<lparr>img_valid := False\<rparr>"


section \<open>The worker threads (\<open>processor\<close>)\<close>

text \<open>
  A worker takes the Images of its queue in turn, leaves its loop at the first invalid
  one, and for every valid one requests an output Image from the memory pool, fills it
  and publishes it. The pool is not part of these files: the Images it hands out, in
  the order of the requests, are the second list. \<open>take\<close> waits on an empty queue and
  \<open>requestMemory\<close> on an exhausted pool. The result is the state the worker reaches,
  the rest of its queue and what it has published. The copy and the kernels that fill
  the buffer are opaque here; only the metadata of the output is modelled.
\<close>

datatype worker = Exited | WaitingForInput | WaitingForMemory

definition H2D_work :: "int \<Rightarrow> image \<Rightarrow> image \<Rightarrow> image" where
  "H2D_work deviceID sinogram img =
     setStart (img_start sinogram)
       (setPlane (img_plane sinogram)
         (setDevice deviceID
           (setIdx (ucast (img_index sinogram)) img)))"

fun H2D_processor :: "int \<Rightarrow> image list \<Rightarrow> image list \<Rightarrow> worker \<times> image list \<times> image list" where
  "H2D_processor deviceID [] mem = (WaitingForInput, [], [])"
| "H2D_processor deviceID (sinogram # q) mem =
     (if \<not> img_valid sinogram then (Exited, q, [])
      else case mem of
             [] \<Rightarrow> (WaitingForMemory, q, [])
           | img # mem' \<Rightarrow>
               (let (w, q', out) = H2D_processor deviceID q mem'
                in (w, q', H2D_work deviceID sinogram img # out)))"

definition D2H_work :: "image \<Rightarrow> image \<Rightarrow> image" where
  "D2H_work img ret =
     setStart (img_start img)
       (setPlane (img_plane img)
         (setIdx (ucast (img_index img)) ret))"

fun D2H_processor :: "int \<Rightarrow> image list \<Rightarrow> image list \<Rightarrow> worker \<times> image list \<times> image list" where
  "D2H_processor deviceID [] mem = (WaitingForInput, [], [])"
| "D2H_processor deviceID (img # q) mem =
     (if \<not> img_valid img then (Exited, q, [])
      else case mem of
             [] \<Rightarrow> (WaitingForMemory, q, [])
           | ret # mem' \<Rightarrow>
               (let (w, q', out) = D2H_processor deviceID q mem'
                in (w, q', D2H_work img ret # out)))"

definition Attenuation_work :: "int \<Rightarrow> image \<Rightarrow> image \<Rightarrow> image" where
  "Attenuation_work deviceID sinogram sino =
     setStart (img_start sinogram)
       (setPlane (img_plane sinogram)
         (setDevice deviceID
           (setIdx (ucast (img_index sinogram)) sino)))"

fun Attenuation_processor ::
  "int \<Rightarrow> image list \<Rightarrow> image list \<Rightarrow> worker \<times> image list \<times> image list" where
  "Attenuation_processor deviceID [] mem = (WaitingForInput, [], [])"
| "Attenuation_processor deviceID (sinogram # q) mem =
     (if \<not> img_valid sinogram then (Exited, q, [])
      else case mem of
             [] \<Rightarrow> (WaitingForMemory, q, [])
           | sino # mem' \<Rightarrow>
               (let (w, q', out) = Attenuation_processor deviceID q mem'
                in (w, q', Attenuation_work deviceID sinogram sino # out)))"

text \<open>The Template worker publishes the Image as the pool hands it out.\<close>

fun Template_processor ::
  "int \<Rightarrow> image list \<Rightarrow> image list \<Rightarrow> worker \<times> image list \<times> image list" where
  "Template_processor deviceID [] mem = (WaitingForInput, [], [])"
| "Template_processor deviceID (img # q) mem =
     (if \<not> img_valid img then (Exited, q, [])
      else case mem of
             [] \<Rightarrow> (WaitingForMemory, q, [])
           | ret # mem' \<Rightarrow>
               (let (w, q', out) = Template_processor deviceID q mem'
                in (w, q', ret # out)))"


section \<open>The stage skeleton (H2D.cu, D2H.cu, Template.cu, Attenuation.cu)\<close>

text \<open>
  A stage owns one input queue and one worker thread for each device, and one output
  queue. The model runs the threads one after the other: \<open>process\<close> appends to the
  input queue of a device, and the worker of a device runs when \<open>process\<close> waits for
  it in \<open>join\<close>, on what its queue holds then. \<open>memory\<close> are the Images the memory
  pool hands to the worker of each device, in the order of its requests (the pool is
  not among these files). Both \<open>std::map\<close>s are total functions: \<open>operator[]\<close>
  creates the empty queue, and the default constructed thread that cannot be joined,
  on first access. Timers and log output are left out.
\<close>

datatype thread = Joinable | NotJoinable

record stage =
  numberOfDevices :: int
  inputs :: "int \<Rightarrow> image list"
  results :: "image list"
  processorThreads :: "int \<Rightarrow> thread"
  memory :: "int \<Rightarrow> image list"

definition push_input :: "int \<Rightarrow> image \<Rightarrow> 'a stage_scheme \<Rightarrow> 'a stage_scheme" where
  "push_input i img s = s\<lparr>inputs := (inputs s)(i := inputs s i @ [img])\<rparr>"

definition push_result :: "image \<Rightarrow> 'a stage_scheme \<Rightarrow> 'a stage_scheme" where
  "push_result img s = s\<lparr>results := results s @ [img]\<rparr>"

text \<open>
  \<open>processorThreads_[i].join()\<close> throws \<open>std::system_error\<close> for a thread that
  cannot be joined, and otherwise returns when the thread has left \<open>processor\<close>: the
  worker takes what is in its queue, publishes its outputs into the output queue, and
  leaves its loop at the first invalid Image. A worker that empties its queue without
  finding one, or finds the pool exhausted, waits, and \<open>join\<close> with it: nobody else
  fills that queue while \<open>process\<close> waits. The first argument is the \<open>processor\<close> of
  the stage.
\<close>

type_synonym processor =
  "int \<Rightarrow> image list \<Rightarrow> image list \<Rightarrow> worker \<times> image list \<times> image list"

definition join :: "processor \<Rightarrow> int \<Rightarrow> 'a stage_scheme \<Rightarrow> error + 'a stage_scheme" where
  "join processor i s =
     (case processorThreads s i of
        NotJoinable \<Rightarrow> Inl SystemError
      | Joinable \<Rightarrow>
          (case processor i (inputs s i) (memory s i) of
             (Exited, q, out) \<Rightarrow>
               Inr (s\<lparr>inputs := (inputs s)(i := q),
                      results := results s @ out,
                      processorThreads := (processorThreads s)(i := NotJoinable),
                      memory := (memory s)(i := drop (length out) (memory s i))\<rparr>)
           | (WaitingForInput, q, out) \<Rightarrow> Inl Deadlock
           | (WaitingForMemory, q, out) \<Rightarrow> Inl Deadlock))"

text \<open>The two loops \<open>for(auto i = 0; i < numberOfDevices_; i++)\<close> of the sentinel
  branch, and the branch itself, which is the same text in all four stages: the
  sentinels for the workers, then the joins, then the sentinel for the next stage.\<close>

fun push_sentinels :: "int list \<Rightarrow> 'a stage_scheme \<Rightarrow> 'a stage_scheme" where
  "push_sentinels [] s = s"
| "push_sentinels (i # is) s = push_sentinels is (push_input i Image_default s)"

fun join_all :: "processor \<Rightarrow> int list \<Rightarrow> 'a stage_scheme \<Rightarrow> error + 'a stage_scheme" where
  "join_all processor [] s = Inr s"
| "join_all processor (i # is) s =
     (case join processor i s of Inl e \<Rightarrow> Inl e | Inr s' \<Rightarrow> join_all processor is s')"

definition finish :: "processor \<Rightarrow> 'a stage_scheme \<Rightarrow> error + 'a stage_scheme" where
  "finish processor s =
     (let devices = [0 .. numberOfDevices s - 1] in
      case join_all processor devices (push_sentinels devices s) of
        Inl e \<Rightarrow> Inl e
      | Inr s' \<Rightarrow> Inr (push_result Image_default s'))"

text \<open>
  What the sentinel branch leaves behind, from state \<open>s\<close> to state \<open>s'\<close>, when the
  worker of device \<open>i\<close> makes the output \<open>work i x m\<close> of the Image \<open>x\<close> and the
  pooled Image \<open>m\<close>: the queues of the devices are drained, their threads joined,
  and the output queue has received the outputs of the workers and, after them, one
  invalid Image.
\<close>

abbreviation sentinel_forwarded ::
  "(int \<Rightarrow> image \<Rightarrow> image \<Rightarrow> image) \<Rightarrow> 'a stage_scheme \<Rightarrow> 'a stage_scheme \<Rightarrow> bool" where
  "sentinel_forwarded work s s' \<equiv>
     (\<forall>i. inputs s' i = (if 0 \<le> i \<and> i < numberOfDevices s then [] else inputs s i)) \<and>
     (\<forall>i. processorThreads s' i =
            (if 0 \<le> i \<and> i < numberOfDevices s then NotJoinable else processorThreads s i)) \<and>
     (\<forall>i. memory s' i =
            (if 0 \<le> i \<and> i < numberOfDevices s
             then drop (length (inputs s i)) (memory s i) else memory s i)) \<and>
     results s' =
       results s
       @ concat (map (\<lambda>i. map2 (work i) (inputs s i) (memory s i)) [0 .. numberOfDevices s - 1])
       @ [Image_default] \<and>
     numberOfDevices s' = numberOfDevices s \<and>
     stage.more s' = stage.more s"

text \<open>A stage whose sentinel branch runs through: the threads of its devices can be
  joined, their queues hold valid Images only, and the pool has an Image for each of
  them.\<close>

abbreviation ready :: "'a stage_scheme \<Rightarrow> bool" where
  "ready s \<equiv>
     \<forall>i. 0 \<le> i \<and> i < numberOfDevices s \<longrightarrow>
       processorThreads s i = Joinable \<and> (\<forall>v\<in>set (inputs s i). img_valid v) \<and>
       length (inputs s i) \<le> length (memory s i)"

subsection \<open>Attenuation and Template\<close>

text \<open>\<open>queue.push(std::move(img))\<close> stores the Image move-constructed from the
  argument.\<close>

definition Attenuation_process :: "image \<Rightarrow> stage \<Rightarrow> error + stage" where
  "Attenuation_process sinogram s =
     (if img_valid sinogram
      then Inr (push_input (img_device sinogram) (fst (Image_move sinogram)) s)
      else finish Attenuation_processor s)"

definition Template_process :: "image \<Rightarrow> stage \<Rightarrow> error + stage" where
  "Template_process img s =
     (if img_valid img
      then Inr (push_input (img_device img) (fst (Image_move img)) s)
      else finish Template_processor s)"

subsection \<open>D2H\<close>

record D2H = stage +
  d2h_count :: size_type

definition D2H_process :: "image \<Rightarrow> D2H \<Rightarrow> error + D2H" where
  "D2H_process img s =
     (if img_valid img
      then Inr (push_input (img_device img) (fst (Image_move img))
                  (s\<lparr>d2h_count := d2h_count s + 1\<rparr>))
      else finish D2H_processor s)"

subsection \<open>H2D\<close>

text \<open>
  H2D distributes the Images over the devices in turn and keeps the loss statistics.
  The counters \<open>lastIndex_\<close>, \<open>lostSinos_\<close> and \<open>count_\<close> are \<open>std::size_t\<close>, as
  \<open>count_\<close> of D2H is, and \<open>diff\<close> is an \<open>int\<close>: the difference of the indices is
  narrowed to 32 bits and sign-extended again when it is added to \<open>lostSinos_\<close>. The
  index is read from the moved-from Image, which keeps it. The remainder by zero
  devices is an error.
\<close>

record H2D = stage +
  lastDevice :: int
  lastIndex :: size_type
  lostSinos :: size_type
  h2d_count :: size_type

definition H2D_process :: "image \<Rightarrow> H2D \<Rightarrow> error + H2D" where
  "H2D_process sinogram s =
     (if img_valid sinogram then
        (let (queued, moved) = Image_move sinogram;
             s1 = push_input (lastDevice s) queued s
         in if numberOfDevices s1 = 0 then Inl DivisionByZero
            else
              (let s2 = s1\<lparr>lastDevice := (lastDevice s1 + 1) smod numberOfDevices s1\<rparr>;
                   diff = (ucast (img_index moved - lastIndex s2 - 1) :: 32 word);
                   s3 = s2\<lparr>lostSinos := lostSinos s2 + scast diff\<rparr>;
                   s4 = s3\<lparr>h2d_count := h2d_count s3 + 1\<rparr>
               in Inr (s4\<lparr>lastIndex := img_index moved\<rparr>)))
      else finish H2D_processor s)"

text \<open>A run of \<open>process\<close> calls on the Images of a list, in order; an error ends
  it.\<close>

fun H2D_run :: "image list \<Rightarrow> H2D \<Rightarrow> error + H2D" where
  "H2D_run [] s = Inr s"
| "H2D_run (img # imgs) s =
     (case H2D_process img s of Inl e \<Rightarrow> Inl e | Inr s' \<Rightarrow> H2D_run imgs s')"

section \<open>Configuration and construction\<close>

text \<open>
  The parsed configuration is a map from keys to values. \<open>get_value<int>\<close> throws a
  \<open>ptree_error\<close> for a key that is missing and for a value that is not an \<open>int\<close>;
  \<open>readConfig\<close> catches it. \<open>readConfig\<close> returns \<open>bool\<close>: the \<open>int\<close>
  \<open>EXIT_SUCCESS\<close> or \<open>EXIT_FAILURE\<close> it returns is converted.
\<close>

datatype cfg_value = CInt int | CString string

type_synonym config = "string \<rightharpoonup> cfg_value"

datatype ptree_error = ptree_bad_path | ptree_bad_data

definition get_int :: "config \<Rightarrow> string \<Rightarrow> ptree_error + int" where
  "get_int cfg key =
     (case cfg key of
        None \<Rightarrow> Inl ptree_bad_path
      | Some (CInt n) \<Rightarrow> if - (2 ^ 31) \<le> n \<and> n < 2 ^ 31 then Inr n else Inl ptree_bad_data
      | Some (CString _) \<Rightarrow> Inl ptree_bad_data)"

definition EXIT_SUCCESS :: int where "EXIT_SUCCESS = 0"
definition EXIT_FAILURE :: int where "EXIT_FAILURE = 1"

definition to_bool :: "int \<Rightarrow> bool" where
  "to_bool n \<longleftrightarrow> n \<noteq> 0"

text \<open>What every constructor sets up for the workers: \<open>devices\<close> is the count
  \<open>cudaGetDeviceCount\<close> reports, one thread is started for each device. The pool has
  handed out nothing yet; what it will hand out is put into \<open>memory\<close> where a
  statement needs it.\<close>

definition stage_new :: "int \<Rightarrow> stage" where
  "stage_new devices =
     \<lparr>numberOfDevices = devices, inputs = (\<lambda>i. []), results = [],
      processorThreads = (\<lambda>i. if 0 \<le> i \<and> i < devices then Joinable else NotJoinable),
      memory = (\<lambda>i. [])\<rparr>"

subsection \<open>Template\<close>

definition Template_readConfig :: "config \<Rightarrow> bool \<times> int option" where
  "Template_readConfig cfg =
     (case get_int cfg ''number_of_pixels'' of
        Inl e \<Rightarrow> (to_bool EXIT_FAILURE, None)
      | Inr numberOfPixels \<Rightarrow> (to_bool EXIT_SUCCESS, Some numberOfPixels))"

definition Template_new :: "config \<Rightarrow> int \<Rightarrow> error + stage" where
  "Template_new cfg devices =
     (if \<not> fst (Template_readConfig cfg)
      then Inl (RuntimeError ''recoLib::cuda::Template: unable to read config file. Please check!'')
      else Inr (stage_new devices))"

subsection \<open>D2H\<close>

definition D2H_readConfig :: "config \<Rightarrow> bool \<times> (int \<times> int) option" where
  "D2H_readConfig cfg =
     (case get_int cfg ''number_of_pixels'' of
        Inl e \<Rightarrow> (to_bool EXIT_FAILURE, None)
      | Inr numberOfPixels \<Rightarrow>
          (case get_int cfg ''mempoolsize_d2h'' of
             Inl e \<Rightarrow> (to_bool EXIT_FAILURE, None)
           | Inr memPoolSize \<Rightarrow> (to_bool EXIT_SUCCESS, Some (numberOfPixels, memPoolSize))))"

definition D2H_new :: "config \<Rightarrow> int \<Rightarrow> error + D2H" where
  "D2H_new cfg devices =
     (if fst (D2H_readConfig cfg)
      then Inl (RuntimeError ''recoLib::cuda::D2H: unable to read config file. Please check!'')
      else Inr (stage.extend (stage_new devices) (D2H.fields 0)))"

subsection \<open>H2D\<close>

text \<open>The count of projections is \<open>sampling_rate * 1000000 / scan_rate\<close> in \<open>int\<close>:
  a product beyond the range of \<open>int\<close> and a scan rate of zero are errors of the
  arithmetic, not of the lookup.\<close>

definition projections :: "int \<Rightarrow> int \<Rightarrow> error + int" where
  "projections sampling_rate scan_rate =
     (if scan_rate = 0 then Inl DivisionByZero
      else if \<not> (- (2 ^ 31) \<le> sampling_rate * 1000000 \<and> sampling_rate * 1000000 < 2 ^ 31)
      then Inl IntOverflow
      else Inr ((sampling_rate * 1000000) sdiv scan_rate))"


definition H2D_readConfig :: "config \<Rightarrow> error + bool \<times> (int \<times> int \<times> int) option" where
  "H2D_readConfig cfg =
     (case get_int cfg ''number_of_fan_detectors'' of
        Inl e \<Rightarrow> Inr (to_bool EXIT_FAILURE, None)
      | Inr numberOfDetectors \<Rightarrow>
     (case get_int cfg ''mempoolsize_h2d'' of
        Inl e \<Rightarrow> Inr (to_bool EXIT_FAILURE, None)
      | Inr memPoolSize \<Rightarrow>
     (case get_int cfg ''sampling_rate'' of
        Inl e \<Rightarrow> Inr (to_bool EXIT_FAILURE, None)
      | Inr sampling_rate \<Rightarrow>
     (case get_int cfg ''scan_rate'' of
        Inl e \<Rightarrow> Inr (to_bool EXIT_FAILURE, None)
      | Inr scan_rate \<Rightarrow>
     (case projections sampling_rate scan_rate of
        Inl e \<Rightarrow> Inl e
      | Inr numberOfProjections \<Rightarrow>
          Inr (to_bool EXIT_SUCCESS,
               Some (numberOfDetectors, memPoolSize, numberOfProjections)))))))"

definition H2D_new :: "config \<Rightarrow> int \<Rightarrow> error + H2D" where
  "H2D_new cfg devices =
     (case H2D_readConfig cfg of
        Inl e \<Rightarrow> Inl e
      | Inr (failed, values) \<Rightarrow>
          if failed
          then Inl (RuntimeError ''Configuration file could not be read. Please check!'')
          else Inr (stage.extend (stage_new devices) (H2D.fields 0 0 0 0)))"

section \<open>The Receiver (Receiver.cpp)\<close>

text \<open>
  The Receiver keeps one ring buffer of raw samples for each detector module. Its
  configuration values are counts: a negative one makes the allocation of the ring
  buffers fail. \<open>buffers_\<close> is a \<open>std::map\<close> again, a module without a buffer has
  the empty one.
\<close>

type_synonym u16 = "16 word"

record Receiver =
  numberOfDetectors :: nat
  numberOfDetectorModules :: nat
  numberOfProjections :: nat
  bufferSize :: nat
  buffers :: "int \<Rightarrow> u16 list"

definition Receiver_readConfig :: "config \<Rightarrow> error + bool \<times> (int \<times> int \<times> int \<times> int) option" where
  "Receiver_readConfig cfg =
     (case (get_int cfg ''samplingRate'', get_int cfg ''numberOfFanDetectors'',
            get_int cfg ''scanRate'', get_int cfg ''inputBufferSize'',
            get_int cfg ''numberOfDetectorModules'') of
        (Inr samplingRate, Inr D, Inr scanRate, Inr B, Inr M) \<Rightarrow>
          (case projections samplingRate scanRate of
             Inl e \<Rightarrow> Inl e
           | Inr P \<Rightarrow> Inr (to_bool EXIT_SUCCESS, Some (D, M, P, B)))
      | _ \<Rightarrow> Inr (to_bool EXIT_FAILURE, None))"

definition Receiver_new :: "config \<Rightarrow> error + Receiver" where
  "Receiver_new cfg =
     (case Receiver_readConfig cfg of
        Inl e \<Rightarrow> Inl e
      | Inr (failed, None) \<Rightarrow>
          Inl (RuntimeError
            ''Receiver: Configuration file could not be loaded successfully. Please check!'')
      | Inr (failed, Some (D, M, P, B)) \<Rightarrow>
          if failed
          then Inl (RuntimeError
            ''Receiver: Configuration file could not be loaded successfully. Please check!'')
          else if D < 0 \<or> M < 0 \<or> P < 0 \<or> B < 0 then Inl BadAlloc
          else Inr \<lparr>numberOfDetectors = nat D, numberOfDetectorModules = nat M,
                    numberOfProjections = nat P, bufferSize = nat B,
                    buffers = (\<lambda>i. if 0 \<le> i \<and> i < M
                                    then replicate (nat B * (nat D div nat M) * nat P) 0
                                    else [])\<rparr>)"

text \<open>\<open>std::copy\<close> of \<open>n\<close> elements of a vector, from position \<open>first\<close> on, to the
  offset \<open>off\<close> of the buffer behind a pointer.\<close>

definition copy_range ::
  "'v list \<Rightarrow> nat \<Rightarrow> nat \<Rightarrow> addr option \<Rightarrow> nat \<Rightarrow> 'v store \<Rightarrow> error + 'v store" where
  "copy_range src first n ptr off h =
     (case ptr of
        None \<Rightarrow> Inl OutOfBounds
      | Some a \<Rightarrow>
          (case buffer h a of
             None \<Rightarrow> Inl OutOfBounds
           | Some d \<Rightarrow>
               if first + n \<le> length src \<and> off + n \<le> length d
               then Inr (h[a := Some (take off d @ take n (drop first src) @ drop (off + n) d)])
               else Inl OutOfBounds))"

text \<open>The loop of \<open>loadImage\<close> over the detector modules, with its local constant
  \<open>numberOfDetectorsPerModule = 16\<close>.\<close>

definition numberOfDetectorsPerModule :: nat where
  "numberOfDetectorsPerModule = 16"

fun stitch :: "Receiver \<Rightarrow> size_type \<Rightarrow> int list \<Rightarrow> addr option \<Rightarrow> u16 store \<Rightarrow> error + u16 store" where
  "stitch r index [] ptr h = Inr h"
| "stitch r index (detModInd # ms) ptr h =
     (let startIndex = (unat index mod bufferSize r) * numberOfDetectorsPerModule
                         * numberOfProjections r
      in case copy_range (buffers r detModInd) startIndex
                (numberOfDetectorsPerModule * numberOfProjections r) ptr
                (nat detModInd * numberOfDetectorsPerModule * numberOfProjections r) h of
           Inl e \<Rightarrow> Inl e
         | Inr h' \<Rightarrow> stitch r index ms ptr h')"

text \<open>
  \<open>loadImage\<close>: \<open>index\<close> is what \<open>notification_.fetch()\<close> returned, \<open>sino\<close> the
  Image \<open>requestMemory\<close> hands out (it is requested only when the index is not
  \<open>-1\<close>) and \<open>now\<close> the reading of the clock.
\<close>

definition Receiver_loadImage ::
  "Receiver \<Rightarrow> size_type \<Rightarrow> image \<Rightarrow> time_point \<Rightarrow> u16 store \<Rightarrow> error + image \<times> u16 store" where
  "Receiver_loadImage r index sino now h =
     (if index = - 1 then Inr (Image_default, h)
      else if numberOfDetectorModules r > 0 \<and> bufferSize r = 0 then Inl DivisionByZero
      else
        (case stitch r index [0 .. int (numberOfDetectorModules r) - 1] (img_data sino) h of
           Inl e \<Rightarrow> Inl e
         | Inr h' \<Rightarrow>
             Inr (fst (Image_move
                    (setStart now (setPlane (index mod 2) (setIdx (ucast index) sino)))),
                  h')))"

text \<open>
  The sinogram as the specification words it: for every detector module \<open>m\<close>, the
  stripe of \<open>(number_of_fan_detectors / number_of_det_modules) * numberOfProjections\<close>
  samples at the ring-buffer slot \<open>k mod inputBufferSize\<close> of module \<open>m\<close>, at the
  output offset \<open>m\<close> times the length of a stripe.
\<close>

definition stitched_spec :: "Receiver \<Rightarrow> size_type \<Rightarrow> u16 list" where
  "stitched_spec r k =
     (let stripe = (numberOfDetectors r div numberOfDetectorModules r) * numberOfProjections r
      in concat (map (\<lambda>m. take stripe (drop ((unat k mod bufferSize r) * stripe) (buffers r m)))
                  [0 .. int (numberOfDetectorModules r) - 1]))"

section \<open>Volumes (glados/Volume.h)\<close>

record volume =
  vol_width :: size_type
  vol_height :: size_type
  vol_depth :: size_type
  vol_data :: "addr option"
  vol_valid :: bool

text \<open>
  \<open>operator[]\<close>. The slice is copied into a new buffer of \<open>width * height\<close>
  elements, and the Image is built by \<open>Image{width_, height_, i, std::move(ptr)}\<close>:
  the constructor of Image.h takes these four arguments as size, index, plane and
  buffer, in this order.
\<close>

definition Volume_at :: "volume \<Rightarrow> size_type \<Rightarrow> 'v::zero store \<Rightarrow> error + image \<times> 'v store" where
  "Volume_at v i h =
     (if i \<ge> vol_depth v then Inl (OutOfRange ''Volume: invalid slice index'')
      else
        (let sliceIdx = i * vol_width v * vol_height v;
             n = unat (vol_width v * vol_height v);
             (a, h1) = make_ptr n h
         in case vol_data v of
              None \<Rightarrow> Inl OutOfBounds
            | Some p \<Rightarrow>
                (case buffer h1 p of
                   None \<Rightarrow> Inl OutOfBounds
                 | Some src \<Rightarrow>
                     (case copy_range src (unat sliceIdx) n (Some a) 0 h1 of
                        Inl e \<Rightarrow> Inl e
                      | Inr h2 \<Rightarrow>
                          Inr (Image_new (vol_width v) (vol_height v) i (Some a) h2)))))"

section \<open>The memory pool\<close>

text \<open>
  Modelled from the spec: \<open>MemoryPool\<close> (\<open>registerStage\<close>, \<open>requestMemory\<close>,
  \<open>returnMemory\<close>) is not among the sources. A registration reserves a number of
  buffers of a fixed element count and keeps the free ones in a list; its index is its
  position among the registrations. \<open>requestMemory\<close> takes a free buffer and wraps it
  in a valid Image that remembers the registration; it blocks (\<open>None\<close>) while the free
  list is empty, and also for an index that was never registered. \<open>returnMemory\<close>
  puts the buffer of the Image back on the free list of its registration.
\<close>

record registration =
  elements :: nat
  free :: "addr list"

type_synonym pool = "registration list"

definition registerStage :: "nat \<Rightarrow> nat \<Rightarrow> pool \<Rightarrow> 'v::zero store \<Rightarrow> nat \<times> pool \<times> 'v store" where
  "registerStage cnt n p h =
     (length p,
      p @ [\<lparr>elements = n, free = [length h ..< length h + cnt]\<rparr>],
      h @ replicate cnt (Some (replicate n 0)))"

definition requestMemory :: "uint \<Rightarrow> pool \<Rightarrow> (image \<times> pool) option" where
  "requestMemory idx p =
     (if unat idx < length p then
        (case free (p ! unat idx) of
           [] \<Rightarrow> None
         | a # as \<Rightarrow>
             Some (setMemPoolIdx idx
                     \<lparr>img_size = of_nat (elements (p ! unat idx)), img_index = 0,
                      img_plane = 0, img_data = Some a, img_memoryPoolIndex = 0,
                      img_start = 0, img_valid = True, img_device = 0\<rparr>,
                   p[unat idx := (p ! unat idx)\<lparr>free := as\<rparr>]))
      else None)"

definition returnMemory :: "image \<Rightarrow> pool \<Rightarrow> pool" where
  "returnMemory img p =
     (let idx = unat (img_memoryPoolIndex img) in
      case img_data img of
        None \<Rightarrow> p
      | Some a \<Rightarrow> if idx < length p then p[idx := (p ! idx)\<lparr>free := free (p ! idx) @ [a]\<rparr>] else p)"

text \<open>The destructor \<open>~Image()\<close> of Image.h.\<close>

definition Image_destroy :: "image \<Rightarrow> pool \<Rightarrow> pool" where
  "Image_destroy img p =
     (if img_valid img then returnMemory (fst (Image_move img)) p else p)"

definition free_count :: "pool \<Rightarrow> nat \<Rightarrow> nat" where
  "free_count p idx = (if idx < length p then length (free (p ! idx)) else 0)"


section \<open>Sample inputs\<close>

text \<open>A valid Image with a given index, device and buffer, as a stage may receive it.\<close>

definition frame :: "size_type \<Rightarrow> int \<Rightarrow> addr \<Rightarrow> image" where
  "frame k dev a =
     \<lparr>img_size = 4, img_index = k, img_plane = k mod 2, img_data = Some a,
      img_memoryPoolIndex = 0, img_start = 7, img_valid = True, img_device = dev\<rparr>"

text \<open>A configuration with the keys H2D and D2H read.\<close>

definition sample_config :: config where
  "sample_config =
     [''number_of_fan_detectors'' \<mapsto> CInt 432, ''mempoolsize_h2d'' \<mapsto> CInt 4,
      ''sampling_rate'' \<mapsto> CInt 1, ''scan_rate'' \<mapsto> CInt 2000,
      ''number_of_pixels'' \<mapsto> CInt 256, ''mempoolsize_d2h'' \<mapsto> CInt 4]"

text \<open>A configuration for the Receiver: 32 detectors in 2 modules, one projection for
  each frame, ring buffers two frames deep, and three planes.\<close>

definition receiver_config :: config where
  "receiver_config =
     [''samplingRate'' \<mapsto> CInt 1, ''scanRate'' \<mapsto> CInt 1000000,
      ''numberOfFanDetectors'' \<mapsto> CInt 32, ''numberOfDetectorModules'' \<mapsto> CInt 2,
      ''inputBufferSize'' \<mapsto> CInt 2,
      ''numberOfPlanes'' \<mapsto> CInt 3, ''number_of_planes'' \<mapsto> CInt 3]"

text \<open>The Image the pool hands to the Receiver, with a buffer of \<open>n\<close> samples at
  address 0 of the store.\<close>

definition pooled :: "nat \<Rightarrow> image" where
  "pooled n =
     \<lparr>img_size = of_nat n, img_index = 0, img_plane = 0, img_data = Some 0,
      img_memoryPoolIndex = 0, img_start = 0, img_valid = True, img_device = 0\<rparr>"

text \<open>A Receiver of 34 detectors in 2 modules (17 for each module), one projection for
  each frame and ring buffers one frame deep, filled by the modules with the samples
  \<open>1, ..., 17\<close> and \<open>101, ..., 117\<close>.\<close>

definition receiver17 :: Receiver where
  "receiver17 =
     \<lparr>numberOfDetectors = 34, numberOfDetectorModules = 2, numberOfProjections = 1,
      bufferSize = 1,
      buffers = (\<lambda>i. if i = 0 then [1, 2, 3, 4, 5, 6, 7, 8, 9, 10, 11, 12, 13, 14, 15, 16, 17]
                      else if i = 1 then [101, 102, 103, 104, 105, 106, 107, 108, 109, 110,
                                          111, 112, 113, 114, 115, 116, 117]
                      else [])\<rparr>"

text \<open>A volume of 4 slices of 2 by 3 elements, numbered from 0 on, at address 0 of its
  store.\<close>

definition volume234 :: volume where
  "volume234 =
     \<lparr>vol_width = 2, vol_height = 3, vol_depth = 4, vol_data = Some 0, vol_valid = True\<rparr>"

definition store234 :: "nat store" where
  "store234 = [Some [0, 1, 2, 3, 4, 5, 6, 7, 8, 9, 10, 11, 12, 13, 14, 15, 16, 17, 18, 19,
                     20, 21, 22, 23]]"

text \<open>An Attenuation stage for two devices with one Image waiting for the worker of
  device 1, and one pooled Image for each worker.\<close>

definition busy_stage :: stage where
  "busy_stage =
     (stage_new 2)\<lparr>inputs := (\<lambda>i. [])(1 := [frame 5 1 0]), memory := (\<lambda>i. [pooled 4])\<rparr>"

section \<open>The sentinel protocol\<close>

lemma push_sentinels_fields:
  "numberOfDevices (push_sentinels ds s) = numberOfDevices s"
  "results (push_sentinels ds s) = results s"
  "processorThreads (push_sentinels ds s) = processorThreads s"
  "memory (push_sentinels ds s) = memory s"
  "stage.more (push_sentinels ds s) = stage.more s"
  by (induction ds arbitrary: s) (simp_all add: push_input_def)

lemma push_sentinels_inputs:
  "distinct ds \<Longrightarrow>
   inputs (push_sentinels ds s) =
     (\<lambda>i. if i \<in> set ds then inputs s i @ [Image_default] else inputs s i)"
proof (induction ds arbitrary: s)
  case Nil
  then show ?case by simp
next
  case (Cons d ds)
  then show ?case by (auto simp: push_input_def fun_eq_iff)
qed

lemma join_exits:
  assumes exits: "\<And>d vs e rest mem. \<forall>v\<in>set vs. img_valid v \<Longrightarrow> \<not> img_valid e \<Longrightarrow>
            length vs \<le> length mem \<Longrightarrow>
            proc d (vs @ e # rest) mem = (Exited, rest, map2 (work d) vs mem)"
    and "processorThreads s i = Joinable"
    and "inputs s i = vs @ [Image_default]"
    and "\<forall>v\<in>set vs. img_valid v"
    and "length vs \<le> length (memory s i)"
  shows "join proc i s =
           Inr (s\<lparr>inputs := (inputs s)(i := []),
                  results := results s @ map2 (work i) vs (memory s i),
                  processorThreads := (processorThreads s)(i := NotJoinable),
                  memory := (memory s)(i := drop (length vs) (memory s i))\<rparr>)"
proof -
  have "proc i (vs @ Image_default # []) (memory s i) =
          (Exited, [], map2 (work i) vs (memory s i))"
    using assms(4,5) by (intro exits) (simp_all add: Image_default_def)
  then show ?thesis
    using assms(2,3,5) by (simp add: join_def)
qed

lemma join_all_drains:
  assumes exits: "\<And>d vs e rest mem. \<forall>v\<in>set vs. img_valid v \<Longrightarrow> \<not> img_valid e \<Longrightarrow>
            length vs \<le> length mem \<Longrightarrow>
            proc d (vs @ e # rest) mem = (Exited, rest, map2 (work d) vs mem)"
    and "distinct ds"
    and "\<forall>i\<in>set ds. processorThreads s i = Joinable \<and> inputs s i = pend i @ [Image_default] \<and>
           (\<forall>v\<in>set (pend i). img_valid v) \<and> length (pend i) \<le> length (memory s i)"
  shows "join_all proc ds s =
           Inr (s\<lparr>inputs := (\<lambda>i. if i \<in> set ds then [] else inputs s i),
                  results := results s @ concat (map (\<lambda>i. map2 (work i) (pend i) (memory s i)) ds),
                  processorThreads :=
                    (\<lambda>i. if i \<in> set ds then NotJoinable else processorThreads s i),
                  memory := (\<lambda>i. if i \<in> set ds then drop (length (pend i)) (memory s i)
                                  else memory s i)\<rparr>)"
  using assms(2,3)
proof (induction ds arbitrary: s)
  case Nil
  then show ?case by simp
next
  case (Cons d ds)
  let ?s1 = "s\<lparr>inputs := (inputs s)(d := []),
                  results := results s @ map2 (work d) (pend d) (memory s d),
                  processorThreads := (processorThreads s)(d := NotJoinable),
                  memory := (memory s)(d := drop (length (pend d)) (memory s d))\<rparr>"
  have j: "join proc d s = Inr ?s1"
    using Cons.prems by (intro join_exits [where work = work] exits) simp_all
  have d: "d \<notin> set ds" "distinct ds" using Cons.prems(1) by simp_all
  have ih: "join_all proc ds ?s1 =
           Inr (?s1\<lparr>inputs := (\<lambda>i. if i \<in> set ds then [] else inputs ?s1 i),
                  results := results ?s1 @ concat (map (\<lambda>i. map2 (work i) (pend i) (memory ?s1 i)) ds),
                  processorThreads :=
                    (\<lambda>i. if i \<in> set ds then NotJoinable else processorThreads ?s1 i),
                  memory := (\<lambda>i. if i \<in> set ds then drop (length (pend i)) (memory ?s1 i)
                                  else memory ?s1 i)\<rparr>)"
    using Cons.prems d by (intro Cons.IH) auto
  have c: "map (\<lambda>i. map2 (work i) (pend i) (memory ?s1 i)) ds =
           map (\<lambda>i. map2 (work i) (pend i) (memory s i)) ds"
    using d(1) by (intro map_cong) auto
  show ?case
    unfolding join_all.simps j sum.case ih c
    using d(1) by (auto simp: fun_eq_iff intro!: arg_cong [where f = Inr])
qed

lemma finish_forwards:
  assumes exits: "\<And>d vs e rest mem. \<forall>v\<in>set vs. img_valid v \<Longrightarrow> \<not> img_valid e \<Longrightarrow>
            length vs \<le> length mem \<Longrightarrow>
            proc d (vs @ e # rest) mem = (Exited, rest, map2 (work d) vs mem)"
    and "\<forall>i. 0 \<le> i \<and> i < numberOfDevices s \<longrightarrow>
           processorThreads s i = Joinable \<and> (\<forall>v\<in>set (inputs s i). img_valid v) \<and>
           length (inputs s i) \<le> length (memory s i)"
  shows "\<exists>s'. finish proc s = Inr s' \<and> sentinel_forwarded work s s'"
proof -
  let ?ds = "[0 .. numberOfDevices s - 1]"
  define s1 where "s1 = push_sentinels ?ds s"
  have d: "distinct ?ds" by simp
  have m: "\<And>i. i \<in> set ?ds \<longleftrightarrow> 0 \<le> i \<and> i < numberOfDevices s" by auto
  have t: "processorThreads s1 = processorThreads s"
    and r: "results s1 = results s"
    and n: "numberOfDevices s1 = numberOfDevices s"
    and e: "stage.more s1 = stage.more s"
    and y: "memory s1 = memory s"
    and i: "inputs s1 = (\<lambda>i. if i \<in> set ?ds then inputs s i @ [Image_default] else inputs s i)"
    by (simp_all add: s1_def push_sentinels_fields push_sentinels_inputs [OF d])
  have p: "\<forall>i\<in>set ?ds. processorThreads s1 i = Joinable \<and>
             inputs s1 i = inputs s i @ [Image_default] \<and>
             (\<forall>v\<in>set (inputs s i). img_valid v) \<and> length (inputs s i) \<le> length (memory s1 i)"
    using assms(2) by (simp add: t y i)
  let ?s2 = "s1\<lparr>inputs := (\<lambda>i. if i \<in> set ?ds then [] else inputs s1 i),
                  results := results s1 @ concat (map (\<lambda>i. map2 (work i) (inputs s i) (memory s1 i)) ?ds),
                  processorThreads :=
                    (\<lambda>i. if i \<in> set ?ds then NotJoinable else processorThreads s1 i),
                  memory := (\<lambda>i. if i \<in> set ?ds then drop (length (inputs s i)) (memory s1 i)
                                  else memory s1 i)\<rparr>"
  have "join_all proc ?ds s1 = Inr ?s2"
    by (rule join_all_drains [where work = work and pend = "inputs s", OF exits d p])
  then have "finish proc s = Inr (push_result Image_default ?s2)"
    by (simp add: finish_def s1_def Let_def)
  moreover have "sentinel_forwarded work s (push_result Image_default ?s2)"
    by (simp add: push_result_def t r n e y i m)
  ultimately show ?thesis by blast
qed

lemma H2D_processor_exits:
  "\<forall>v\<in>set vs. img_valid v \<Longrightarrow> \<not> img_valid e \<Longrightarrow> length vs \<le> length mem \<Longrightarrow>
   H2D_processor d (vs @ e # rest) mem = (Exited, rest, map2 (H2D_work d) vs mem)"
proof (induction vs arbitrary: mem)
  case Nil
  then show ?case by simp
next
  case (Cons v vs)
  then obtain m mem' where "mem = m # mem'" by (cases mem) auto
  with Cons show ?case by simp
qed

lemma H2D_processor_stays:
  "\<forall>v\<in>set q. img_valid v \<Longrightarrow> fst (H2D_processor d q mem) \<noteq> Exited"
proof (induction q arbitrary: mem)
  case Nil
  then show ?case by simp
next
  case (Cons v q)
  then show ?case by (cases mem) (simp_all add: case_prod_unfold Let_def)
qed

lemma D2H_processor_exits:
  "\<forall>v\<in>set vs. img_valid v \<Longrightarrow> \<not> img_valid e \<Longrightarrow> length vs \<le> length mem \<Longrightarrow>
   D2H_processor d (vs @ e # rest) mem = (Exited, rest, map2 D2H_work vs mem)"
proof (induction vs arbitrary: mem)
  case Nil
  then show ?case by simp
next
  case (Cons v vs)
  then obtain m mem' where "mem = m # mem'" by (cases mem) auto
  with Cons show ?case by simp
qed

lemma D2H_processor_stays:
  "\<forall>v\<in>set q. img_valid v \<Longrightarrow> fst (D2H_processor d q mem) \<noteq> Exited"
proof (induction q arbitrary: mem)
  case Nil
  then show ?case by simp
next
  case (Cons v q)
  then show ?case by (cases mem) (simp_all add: case_prod_unfold Let_def)
qed

lemma Attenuation_processor_exits:
  "\<forall>v\<in>set vs. img_valid v \<Longrightarrow> \<not> img_valid e \<Longrightarrow> length vs \<le> length mem \<Longrightarrow>
   Attenuation_processor d (vs @ e # rest) mem =
     (Exited, rest, map2 (Attenuation_work d) vs mem)"
proof (induction vs arbitrary: mem)
  case Nil
  then show ?case by simp
next
  case (Cons v vs)
  then obtain m mem' where "mem = m # mem'" by (cases mem) auto
  with Cons show ?case by simp
qed

lemma Attenuation_processor_stays:
  "\<forall>v\<in>set q. img_valid v \<Longrightarrow> fst (Attenuation_processor d q mem) \<noteq> Exited"
proof (induction q arbitrary: mem)
  case Nil
  then show ?case by simp
next
  case (Cons v q)
  then show ?case by (cases mem) (simp_all add: case_prod_unfold Let_def)
qed

lemma Template_processor_exits:
  "\<forall>v\<in>set vs. img_valid v \<Longrightarrow> \<not> img_valid e \<Longrightarrow> length vs \<le> length mem \<Longrightarrow>
   Template_processor d (vs @ e # rest) mem = (Exited, rest, take (length vs) mem)"
proof (induction vs arbitrary: mem)
  case Nil
  then show ?case by simp
next
  case (Cons v vs)
  then obtain m mem' where "mem = m # mem'" by (cases mem) auto
  with Cons show ?case by simp
qed

lemma Template_processor_stays:
  "\<forall>v\<in>set q. img_valid v \<Longrightarrow> fst (Template_processor d q mem) \<noteq> Exited"
proof (induction q arbitrary: mem)
  case Nil
  then show ?case by simp
next
  case (Cons v q)
  then show ?case by (cases mem) (simp_all add: case_prod_unfold Let_def)
qed


lemma Template_processor_exits_map:
  "\<forall>v\<in>set vs. img_valid v \<Longrightarrow> \<not> img_valid e \<Longrightarrow> length vs \<le> length mem \<Longrightarrow>
   Template_processor d (vs @ e # rest) mem = (Exited, rest, map2 (\<lambda>x m. m) vs mem)"
proof (induction vs arbitrary: mem)
  case Nil
  then show ?case by simp
next
  case (Cons v vs)
  then obtain m mem' where "mem = m # mem'" by (cases mem) auto
  with Cons show ?case by simp
qed

lemma join_waits:
  assumes "\<And>q mem. \<forall>v\<in>set q. img_valid v \<Longrightarrow> fst (proc i q mem) \<noteq> Exited"
    and "processorThreads s i = Joinable" and "\<forall>v\<in>set (inputs s i). img_valid v"
  shows "join proc i s = Inl Deadlock"
proof -
  obtain w q out where p: "proc i (inputs s i) (memory s i) = (w, q, out)"
    by (cases "proc i (inputs s i) (memory s i)")
  with assms(1) [OF assms(3), of "memory s i"] have "w \<noteq> Exited" by simp
  then show ?thesis
    using assms(2) p by (cases w) (simp_all add: join_def)
qed

text \<open>
  Claim C1. Called with an invalid Image, \<open>process\<close> of each stage (H2D, D2H,
  Attenuation, Template) appends exactly one invalid Image to the input queue of each
  of the \<open>numberOfDevices_\<close> devices and to no other queue, then joins the worker
  thread of each device, and then appends exactly one invalid Image to the output
  queue: when \<open>process\<close> returns, every worker has taken all of its queue, the one
  invalid Image included, its thread is joined, and the output queue holds the outputs
  of the workers followed by the invalid Image. Before the invalid Image is in its
  queue, the join of a worker does not return. A worker leaves its loop when it takes
  an invalid Image from its queue, having published one output for every valid Image
  before it, and does not leave it while it takes valid Images only. The threads are
  the ones the constructor started, the queues hold valid Images, and the pool has an
  Image for each of them.
\<close>

theorem sentinel_protocol:
  assumes "\<not> img_valid img"
    and "ready h" and "ready d" and "ready a" and "ready t"
    and "\<forall>v\<in>set q. img_valid v" and "length q \<le> length mem"
  shows "(\<exists>h'. H2D_process img h = Inr h' \<and> sentinel_forwarded H2D_work h h') \<and>
         (\<exists>d'. D2H_process img d = Inr d' \<and> sentinel_forwarded (\<lambda>i. D2H_work) d d') \<and>
         (\<exists>a'. Attenuation_process img a = Inr a' \<and> sentinel_forwarded Attenuation_work a a') \<and>
         (\<exists>t'. Template_process img t = Inr t' \<and> sentinel_forwarded (\<lambda>i x m. m) t t') \<and>
         inputs (push_sentinels [0 .. numberOfDevices s - 1] s) i =
           inputs s i @ (if 0 \<le> i \<and> i < numberOfDevices s then [Image_default] else []) \<and>
         (0 \<le> i \<and> i < numberOfDevices h \<longrightarrow> join H2D_processor i h = Inl Deadlock) \<and>
         (0 \<le> i \<and> i < numberOfDevices d \<longrightarrow> join D2H_processor i d = Inl Deadlock) \<and>
         (0 \<le> i \<and> i < numberOfDevices a \<longrightarrow> join Attenuation_processor i a = Inl Deadlock) \<and>
         (0 \<le> i \<and> i < numberOfDevices t \<longrightarrow> join Template_processor i t = Inl Deadlock) \<and>
         H2D_processor dev (q @ img # rest) mem = (Exited, rest, map2 (H2D_work dev) q mem) \<and>
         D2H_processor dev (q @ img # rest) mem = (Exited, rest, map2 D2H_work q mem) \<and>
         Attenuation_processor dev (q @ img # rest) mem =
           (Exited, rest, map2 (Attenuation_work dev) q mem) \<and>
         Template_processor dev (q @ img # rest) mem = (Exited, rest, take (length q) mem) \<and>
         fst (H2D_processor dev q mem) \<noteq> Exited \<and>
         fst (D2H_processor dev q mem) \<noteq> Exited \<and>
         fst (Attenuation_processor dev q mem) \<noteq> Exited \<and>
         fst (Template_processor dev q mem) \<noteq> Exited"
proof -
  have p1: "\<exists>h'. H2D_process img h = Inr h' \<and> sentinel_forwarded H2D_work h h'"
    unfolding H2D_process_def if_not_P [OF assms(1)]
    by (rule finish_forwards [OF H2D_processor_exits assms(2)])
  have p2: "\<exists>d'. D2H_process img d = Inr d' \<and> sentinel_forwarded (\<lambda>i. D2H_work) d d'"
    unfolding D2H_process_def if_not_P [OF assms(1)]
    by (rule finish_forwards [OF D2H_processor_exits assms(3)])
  have p3: "\<exists>a'. Attenuation_process img a = Inr a' \<and> sentinel_forwarded Attenuation_work a a'"
    unfolding Attenuation_process_def if_not_P [OF assms(1)]
    by (rule finish_forwards [OF Attenuation_processor_exits assms(4)])
  have p4: "\<exists>t'. Template_process img t = Inr t' \<and> sentinel_forwarded (\<lambda>i x m. m) t t'"
    unfolding Template_process_def if_not_P [OF assms(1)]
    by (rule finish_forwards [OF Template_processor_exits_map assms(5)])
  have p5: "inputs (push_sentinels [0 .. numberOfDevices s - 1] s) i =
           inputs s i @ (if 0 \<le> i \<and> i < numberOfDevices s then [Image_default] else [])"
    by (simp add: push_sentinels_inputs)
  have w1: "0 \<le> i \<and> i < numberOfDevices h \<longrightarrow> join H2D_processor i h = Inl Deadlock"
    using assms(2) by (auto intro!: join_waits H2D_processor_stays)
  have w2: "0 \<le> i \<and> i < numberOfDevices d \<longrightarrow> join D2H_processor i d = Inl Deadlock"
    using assms(3) by (auto intro!: join_waits D2H_processor_stays)
  have w3: "0 \<le> i \<and> i < numberOfDevices a \<longrightarrow> join Attenuation_processor i a = Inl Deadlock"
    using assms(4) by (auto intro!: join_waits Attenuation_processor_stays)
  have w4: "0 \<le> i \<and> i < numberOfDevices t \<longrightarrow> join Template_processor i t = Inl Deadlock"
    using assms(5) by (auto intro!: join_waits Template_processor_stays)
  note exits =
    H2D_processor_exits [OF assms(6) assms(1) assms(7)]
    D2H_processor_exits [OF assms(6) assms(1) assms(7)]
    Attenuation_processor_exits [OF assms(6) assms(1) assms(7)]
    Template_processor_exits [OF assms(6) assms(1) assms(7)]
  note stays =
    H2D_processor_stays [OF assms(6)]
    D2H_processor_stays [OF assms(6)]
    Attenuation_processor_stays [OF assms(6)]
    Template_processor_stays [OF assms(6)]
  show ?thesis
    by (intro conjI) (rule p1 p2 p3 p4 p5 w1 w2 w3 w4 exits stays)+
qed


lemma upto_2: "[0 .. (1::int)] = [0, 1]"
  by (simp add: upto.simps)

text \<open>An instance: an Attenuation stage for two devices with an Image waiting for
  the worker of device 1, and a worker with one valid Image in front of the
  sentinel.\<close>

theorem sentinel_protocol_witness:
  "\<not> img_valid Image_default \<and>
   processorThreads busy_stage 0 = Joinable \<and>
   processorThreads busy_stage 1 = Joinable \<and>
   inputs busy_stage 1 = [frame 5 1 0] \<and>
   img_valid (frame 5 1 0) \<and>
   map_sum id (\<lambda>s. (results s, inputs s 0, inputs s 1, processorThreads s 0, processorThreads s 1))
     (Attenuation_process Image_default busy_stage) =
     Inr ([Attenuation_work 1 (frame 5 1 0) (pooled 4), Image_default], [], [],
          NotJoinable, NotJoinable) \<and>
   join Attenuation_processor 1 busy_stage = Inl Deadlock \<and>
   H2D_processor 1 ([frame 5 1 0] @ Image_default # []) [pooled 4] =
     (Exited, [], map2 (H2D_work 1) [frame 5 1 0] [pooled 4]) \<and>
   fst (H2D_processor 1 [frame 5 1 0] [pooled 4]) \<noteq> Exited"
proof -
  let ?h = "stage.extend (stage_new 2) (H2D.fields 0 0 0 0)"
  let ?d = "stage.extend (stage_new 2) (D2H.fields 0)"
  have b: "numberOfDevices busy_stage = 2" "results busy_stage = []"
    "inputs busy_stage = (\<lambda>i. [])(1 := [frame 5 1 0])" "memory busy_stage = (\<lambda>i. [pooled 4])"
    "processorThreads busy_stage = (\<lambda>i. if 0 \<le> i \<and> i < 2 then Joinable else NotJoinable)"
    by (simp_all add: busy_stage_def stage_new_def)
  have v: "img_valid (frame 5 1 0)" "\<not> img_valid Image_default"
    by (simp_all add: frame_def Image_default_def)
  have r: "ready ?h" "ready ?d" "ready busy_stage" "ready (stage_new 2)"
    by (simp_all add: b v) (simp_all add: stage_new_def stage.extend_def)
  have q: "\<forall>v\<in>set [frame 5 1 0]. img_valid v" "length [frame 5 1 0] \<le> length [pooled 4]"
    by (simp_all add: v)
  note inst = sentinel_protocol [OF v(2) r q, of busy_stage 1 1 "[]"]
  from inst obtain a' where a: "Attenuation_process Image_default busy_stage = Inr a'"
    and f: "sentinel_forwarded Attenuation_work busy_stage a'"
    by blast
  have 1: "map_sum id (\<lambda>s. (results s, inputs s 0, inputs s 1, processorThreads s 0, processorThreads s 1))
     (Attenuation_process Image_default busy_stage) =
     Inr ([Attenuation_work 1 (frame 5 1 0) (pooled 4), Image_default], [], [],
          NotJoinable, NotJoinable)"
    using f by (simp add: a b upto_2)
  have 2: "join Attenuation_processor 1 busy_stage = Inl Deadlock"
    using inst by (simp add: b)
  from inst have 3: "H2D_processor 1 ([frame 5 1 0] @ Image_default # []) [pooled 4] =
     (Exited, [], map2 (H2D_work 1) [frame 5 1 0] [pooled 4])"
    and 4: "fst (H2D_processor 1 [frame 5 1 0] [pooled 4]) \<noteq> Exited"
    by blast+
  show ?thesis
    using 1 2 3 4 v by (simp add: b)
qed


section \<open>Routing of valid Images\<close>

lemma Image_move_fst: "fst (Image_move img) = img"
  by (simp add: Image_move_def)

lemma Image_move_snd_index: "img_index (snd (Image_move img)) = img_index img"
  by (simp add: Image_move_def)

lemma H2D_process_valid:
  assumes "img_valid img" "numberOfDevices s \<noteq> 0"
  shows "H2D_process img s =
    Inr (s\<lparr>inputs := (inputs s)(lastDevice s := inputs s (lastDevice s) @ [img]),
           lastDevice := (lastDevice s + 1) smod numberOfDevices s,
           lostSinos := lostSinos s + scast (ucast (img_index img - lastIndex s - 1) :: 32 word),
           h2d_count := h2d_count s + 1,
           lastIndex := img_index img\<rparr>)"
  using assms
  by (simp add: H2D_process_def push_input_def Let_def case_prod_unfold Image_move_fst
      Image_move_snd_index)

text \<open>
  Claim C4, amended. A valid Image arriving at \<open>process\<close> of D2H, Attenuation or
  Template is appended to the input queue of the device the Image names
  (\<open>img.device()\<close>), and to no other queue. H2D does not look at the device of the
  Image: it appends it to the queue of \<open>lastDevice_\<close> and moves \<open>lastDevice_\<close> on by
  one, modulo the number of devices. No stage publishes anything on the way.
\<close>

theorem valid_image_routing:
  assumes "img_valid img" and "numberOfDevices h \<noteq> 0"
  shows "(\<exists>d'. D2H_process img d = Inr d' \<and> results d' = results d \<and>
            inputs d' = (inputs d)(img_device img := inputs d (img_device img) @ [img])) \<and>
         (\<exists>a'. Attenuation_process img a = Inr a' \<and> results a' = results a \<and>
            inputs a' = (inputs a)(img_device img := inputs a (img_device img) @ [img])) \<and>
         (\<exists>t'. Template_process img t = Inr t' \<and> results t' = results t \<and>
            inputs t' = (inputs t)(img_device img := inputs t (img_device img) @ [img])) \<and>
         (\<exists>h'. H2D_process img h = Inr h' \<and> results h' = results h \<and>
            inputs h' = (inputs h)(lastDevice h := inputs h (lastDevice h) @ [img]) \<and>
            lastDevice h' = (lastDevice h + 1) smod numberOfDevices h)"
  using assms
  by (simp add: D2H_process_def Attenuation_process_def Template_process_def
      H2D_process_valid push_input_def Image_move_fst)

text \<open>An instance: an Image that names device 1 arrives at Attenuation and at a new
  H2D, each with two devices.\<close>

theorem valid_image_routing_witness:
  "img_valid (frame 5 1 0) \<and>
   numberOfDevices (stage.extend (stage_new 2) (H2D.fields 0 0 0 0)) \<noteq> 0 \<and>
   (\<exists>a'. Attenuation_process (frame 5 1 0) (stage_new 2) = Inr a' \<and>
      results a' = results (stage_new 2) \<and>
      inputs a' = (inputs (stage_new 2))
         (img_device (frame 5 1 0) :=
            inputs (stage_new 2) (img_device (frame 5 1 0)) @ [frame 5 1 0])) \<and>
   (\<exists>h'. H2D_process (frame 5 1 0) (stage.extend (stage_new 2) (H2D.fields 0 0 0 0)) = Inr h' \<and>
      results h' = [] \<and>
      inputs h' = (\<lambda>i. [])(0 := [frame 5 1 0]) \<and>
      lastDevice h' = 1)"
  using valid_image_routing [of "frame 5 1 0" "stage.extend (stage_new 2) (H2D.fields 0 0 0 0)"
      "stage.extend (stage_new 2) (D2H.fields 0)" "stage_new 2" "stage_new 2"]
  by (simp add: frame_def stage_new_def stage.extend_def H2D.fields_def smod_int_alt_def)

text \<open>
  Claim C4 as stated fails for H2D: with two devices, the first Image goes to the queue
  of device 0 although the Image names device 1, whose queue stays empty.
\<close>

theorem valid_image_routing_counterexample:
  "img_valid (frame 5 1 0) \<and> img_device (frame 5 1 0) = 1 \<and>
   map_sum id (\<lambda>s. (inputs s 0, inputs s 1))
     (H2D_process (frame 5 1 0) (stage.extend (stage_new 2) (H2D.fields 0 0 0 0)))
   = Inr ([frame 5 1 0], [])"
  by (simp add: H2D_process_valid frame_def stage_new_def stage.extend_def H2D.fields_def)

section \<open>Loss accounting of H2D\<close>

lemma narrow_ucast: "(ucast (word_of_int k :: 64 word) :: 32 word) = word_of_int k"
  by (rule bit_word_eqI) (auto simp add: bit_simps)

lemma widen_scast: fixes k :: int
  assumes "- (2 ^ 31) \<le> k" "k < 2 ^ 31"
  shows "(scast (word_of_int k :: 32 word) :: 64 word) = word_of_int k"
proof -
  have "sint (word_of_int k :: 32 word) = k"
    using assms by (simp add: sint_sbintrunc' signed_take_bit_int_eq_self)
  then show ?thesis by (simp add: scast_eq)
qed

lemma diff_as_int:
  fixes idx last :: "64 word"
  assumes "unat last \<le> unat idx" "unat idx < 2 ^ 31"
  shows "(scast (ucast (idx - last - 1) :: 32 word) :: 64 word) = idx - last - 1"
proof -
  let ?k = "uint idx - uint last - 1"
  have p: "(2::int) ^ 31 = 2147483648" "(2::nat) ^ 31 = 2147483648" by simp_all
  have k: "idx - last - 1 = word_of_int ?k" by simp
  have 1: "uint last \<le> uint idx"
    using assms(1) by (simp add: word_le_nat_alt [symmetric] word_le_def)
  have "int (unat idx) < 2147483648" using assms(2) unfolding p by linarith
  then have 2: "uint idx < 2147483648" by simp
  have 3: "0 \<le> uint last" by simp
  from 1 2 3 have "- (2 ^ 31) \<le> ?k" "?k < 2 ^ 31" unfolding p by linarith+
  then show ?thesis
    unfolding k narrow_ucast by (rule widen_scast)
qed

lemma H2D_run_loss:
  assumes "numberOfDevices s \<noteq> 0"
    and "\<forall>v\<in>set imgs. img_valid v \<and> unat (img_index v) < 2 ^ 31"
    and "sorted (unat (lastIndex s) # map (unat \<circ> img_index) imgs)"
  shows "\<exists>h. H2D_run imgs s = Inr h \<and>
           lostSinos h = lostSinos s + (last (lastIndex s # map img_index imgs) - lastIndex s)
                           - of_nat (length imgs) \<and>
           lastIndex h = last (lastIndex s # map img_index imgs) \<and>
           results h = results s"
  using assms
proof (induction imgs arbitrary: s)
  case Nil
  then show ?case by simp
next
  case (Cons v imgs)
  let ?s = "s\<lparr>inputs := (inputs s)(lastDevice s := inputs s (lastDevice s) @ [v]),
           lastDevice := (lastDevice s + 1) smod numberOfDevices s,
           lostSinos := lostSinos s + scast (ucast (img_index v - lastIndex s - 1) :: 32 word),
           h2d_count := h2d_count s + 1,
           lastIndex := img_index v\<rparr>"
  have step: "H2D_process v s = Inr ?s"
    using Cons.prems by (intro H2D_process_valid) simp_all
  have d: "(scast (ucast (img_index v - lastIndex s - 1) :: 32 word) :: 64 word)
             = img_index v - lastIndex s - 1"
    using Cons.prems by (intro diff_as_int) simp_all
  have "\<exists>h. H2D_run imgs ?s = Inr h \<and>
           lostSinos h = lostSinos ?s + (last (lastIndex ?s # map img_index imgs) - lastIndex ?s)
                           - of_nat (length imgs) \<and>
           lastIndex h = last (lastIndex ?s # map img_index imgs) \<and>
           results h = results ?s"
    using Cons.prems by (intro Cons.IH) simp_all
  then show ?case
    by (auto simp: step d)
qed


lemma H2D_new_state:
  "H2D_new cfg devices = Inr h0 \<Longrightarrow> h0 = stage.extend (stage_new devices) (H2D.fields 0 0 0 0)"
  by (auto simp: H2D_new_def split: sum.splits prod.splits if_splits)

text \<open>From its construction on, the counter of H2D is the last index minus the number of
  Images received, in the arithmetic of \<open>std::size_t\<close>: one less than the number of
  indices skipped when the indices start at 0.\<close>

lemma H2D_loss_counter:
  assumes "H2D_new cfg devices = Inr h0" and "devices \<noteq> 0"
    and "imgs \<noteq> []"
    and "\<forall>v\<in>set imgs. img_valid v \<and> unat (img_index v) < 2 ^ 31"
    and "sorted (map (unat \<circ> img_index) imgs)"
  shows "\<exists>h. H2D_run imgs h0 = Inr h \<and>
           lastIndex h = img_index (last imgs) \<and>
           lostSinos h = img_index (last imgs) - of_nat (length imgs)"
proof -
  have h0: "numberOfDevices h0 = devices" "lastIndex h0 = 0" "lostSinos h0 = 0"
    using H2D_new_state [OF assms(1)]
    by (simp_all add: stage_new_def stage.extend_def H2D.fields_def)
  have "sorted (unat (lastIndex h0) # map (unat \<circ> img_index) imgs)"
    using assms(5) by (simp add: h0)
  from H2D_run_loss [of h0 imgs, OF _ assms(4) this] assms(2)
  obtain h where run: "H2D_run imgs h0 = Inr h"
    and lost: "lostSinos h = last (map img_index imgs) - of_nat (length imgs)"
    and idx: "lastIndex h = last (map img_index imgs)"
    using assms(3) by (auto simp: h0)
  have "last (map img_index imgs) = img_index (last imgs)"
    using assms(3) by (simp add: last_map)
  then show ?thesis using run lost idx by simp
qed

lemma sample_H2D:
  "H2D_new sample_config 1 = Inr (stage.extend (stage_new 1) (H2D.fields 0 0 0 0))"
  by (simp add: H2D_new_def H2D_readConfig_def sample_config_def get_int_def projections_def
      to_bool_def EXIT_SUCCESS_def)

lemma first_frame_diff: "(scast (ucast (- 1 :: 64 word) :: 32 word) :: 64 word) = - 1"
  using diff_as_int [of 0 0] by simp

text \<open>
  Claim C6, at inputs where the code departs from it. A newly constructed H2D receives
  the frames of a run that loses nothing, from index 0 on as the stages expect the
  first frame: after frame 0 alone, and after the frames 0, 1, 2, the counter
  \<open>lostSinos_\<close> is \<open>2^64 - 1\<close>, not 0. \<open>lastIndex_\<close> starts at 0, so the first
  frame contributes \<open>0 - 0 - 1\<close>.
\<close>

theorem loss_counter_defect:
  "H2D_new sample_config 1 = Inr (stage.extend (stage_new 1) (H2D.fields 0 0 0 0)) \<and>
   map_sum id (\<lambda>h. (lastIndex h, h2d_count h, unat (lostSinos h)))
     (H2D_run [frame 0 0 0] (stage.extend (stage_new 1) (H2D.fields 0 0 0 0)))
   = Inr (0, 1, 18446744073709551615) \<and>
   map_sum id (\<lambda>h. (lastIndex h, h2d_count h, unat (lostSinos h)))
     (H2D_run [frame 0 0 0, frame 1 0 1, frame 2 0 2]
        (stage.extend (stage_new 1) (H2D.fields 0 0 0 0)))
   = Inr (2, 3, 18446744073709551615)"
  unfolding sample_H2D
  by (simp add: H2D_process_valid frame_def stage_new_def stage.extend_def H2D.fields_def
      first_frame_diff unsigned_minus_1_eq_mask mask_eq_exp_minus_1)

section \<open>Metadata across a stage\<close>

lemma narrow_index: "(ucast (ucast x :: 32 word) :: 64 word) = take_bit 32 x"
  by (rule bit_word_eqI) (auto simp add: bit_simps)

lemma narrow_index_unat:
  "unat (ucast (ucast (x :: 64 word) :: 32 word) :: 64 word) = unat x mod 2 ^ 32"
  unfolding narrow_index by (simp add: unsigned_take_bit_eq) (simp add: take_bit_eq_mod)


lemma narrow_index_parity:
  "(ucast (ucast x :: 32 word) :: 64 word) mod 2 = (x :: 64 word) mod 2"
proof -
  have "take_bit 1 (take_bit 32 x) = take_bit 1 x" by simp
  then show ?thesis unfolding narrow_index by (simp add: take_bit_eq_mod)
qed






section \<open>The Images of the Receiver\<close>

lemma receiver_sample:
  "Receiver_new receiver_config =
     Inr \<lparr>numberOfDetectors = 32, numberOfDetectorModules = 2, numberOfProjections = 1,
          bufferSize = 2,
          buffers = (\<lambda>i. if 0 \<le> i \<and> i < 2 then replicate 32 0 else [])\<rparr>"
  by (simp add: Receiver_new_def Receiver_readConfig_def receiver_config_def get_int_def
      projections_def to_bool_def EXIT_SUCCESS_def signed_divide_int_def cong: if_cong)

lemma load_sample:
  "Receiver_loadImage
     \<lparr>numberOfDetectors = 32, numberOfDetectorModules = 2, numberOfProjections = 1,
          bufferSize = 2,
          buffers = (\<lambda>i. if 0 \<le> i \<and> i < 2 then replicate 32 0 else [])\<rparr>
     2 (pooled 32) 9 [Some (replicate 32 0)]
   = Inr ((pooled 32)\<lparr>img_index := 2, img_plane := 0, img_start := 9\<rparr>, [Some (replicate 32 0)])"
  apply (simp add: Receiver_loadImage_def upto_2 numberOfDetectorsPerModule_def copy_range_def
      buffer_def pooled_def Image_move_def setIdx_def setPlane_def setStart_def
      flip: replicate_add)
  done


lemma loadImage_result:
  assumes "Receiver_loadImage r k sino now h = Inr (img, h')" and "k \<noteq> - 1"
  shows "img = setStart now (setPlane (k mod 2) (setIdx (ucast k) sino))"
  using assms
  by (auto simp: Receiver_loadImage_def Image_move_fst split: if_splits sum.splits)

lemma loadImage_index_fits:
  assumes "Receiver_loadImage r k sino now h = Inr (img, h')" and "k \<noteq> - 1"
  shows "unat (img_index img) < 2 ^ 32"
proof -
  have "unat (img_index img) = unat k mod 2 ^ 32"
    unfolding loadImage_result [OF assms]
    by (simp add: setStart_def setPlane_def setIdx_def narrow_index_unat)
  then show ?thesis by simp
qed

lemma work_parity:
  assumes "img_plane s = img_index s mod 2"
  shows "img_plane (H2D_work d s m) = img_index (H2D_work d s m) mod 2"
    and "img_plane (Attenuation_work d s m) = img_index (Attenuation_work d s m) mod 2"
    and "img_plane (D2H_work s m) = img_index (D2H_work s m) mod 2"
  using assms
  by (simp_all add: H2D_work_def D2H_work_def Attenuation_work_def setIdx_def setPlane_def
      setStart_def setDevice_def narrow_index_parity)

text \<open>
  Claim C2, amended. For every frame index \<open>k\<close> that \<open>loadImage\<close> turns into an
  Image, the plane of the Image is \<open>k mod 2\<close>, whatever number of planes is
  configured: the Receiver reads no such value. The index of the Image is \<open>k\<close>
  modulo \<open>2^32\<close>, so the plane is also the index of the Image modulo 2, and this
  still holds for the Image that the workers of H2D, Attenuation and D2H make of it.
\<close>

theorem receiver_plane:
  assumes "Receiver_loadImage r k sino now h = Inr (img, h')" and "k \<noteq> - 1"
  shows "img_plane img = k mod 2 \<and>
         unat (img_index img) = unat k mod 2 ^ 32 \<and>
         img_plane img = img_index img mod 2 \<and>
         img_plane (D2H_work (Attenuation_work d2 (H2D_work d1 img m1) m2) m3) =
           img_index (D2H_work (Attenuation_work d2 (H2D_work d1 img m1) m2) m3) mod 2"
proof -
  have img: "img = setStart now (setPlane (k mod 2) (setIdx (ucast k) sino))"
    using assms by (rule loadImage_result)
  have 1: "img_plane img = k mod 2"
    by (simp add: img setStart_def setPlane_def)
  have 2: "unat (img_index img) = unat k mod 2 ^ 32"
    by (simp add: img setStart_def setPlane_def setIdx_def narrow_index_unat)
  have 3: "img_plane img = img_index img mod 2"
    by (simp add: img setStart_def setPlane_def setIdx_def narrow_index_parity)
  from 1 2 3 work_parity(3) [OF work_parity(2) [OF work_parity(1) [OF 3]]]
  show ?thesis by blast
qed

text \<open>An instance: the Receiver of the sample configuration loads frame 3.\<close>

theorem receiver_plane_witness:
  "Receiver_new receiver_config =
     Inr \<lparr>numberOfDetectors = 32, numberOfDetectorModules = 2, numberOfProjections = 1,
          bufferSize = 2,
          buffers = (\<lambda>i. if 0 \<le> i \<and> i < 2 then replicate 32 0 else [])\<rparr> \<and>
   Receiver_loadImage
     \<lparr>numberOfDetectors = 32, numberOfDetectorModules = 2, numberOfProjections = 1,
          bufferSize = 2,
          buffers = (\<lambda>i. if 0 \<le> i \<and> i < 2 then replicate 32 0 else [])\<rparr>
     3 (pooled 32) 9 [Some (replicate 32 0)]
   = Inr ((pooled 32)\<lparr>img_index := 3, img_plane := 1, img_start := 9\<rparr>, [Some (replicate 32 0)]) \<and>
   img_plane ((pooled 32)\<lparr>img_index := 3, img_plane := 1, img_start := 9\<rparr>) = 3 mod 2"
proof -
  have l: "Receiver_loadImage
     \<lparr>numberOfDetectors = 32, numberOfDetectorModules = 2, numberOfProjections = 1,
          bufferSize = 2,
          buffers = (\<lambda>i. if 0 \<le> i \<and> i < 2 then replicate 32 0 else [])\<rparr>
     3 (pooled 32) 9 [Some (replicate 32 0)]
   = Inr ((pooled 32)\<lparr>img_index := 3, img_plane := 1, img_start := 9\<rparr>, [Some (replicate 32 0)])"
    by (simp add: Receiver_loadImage_def upto_2 numberOfDetectorsPerModule_def copy_range_def
      buffer_def pooled_def Image_move_def setIdx_def setPlane_def setStart_def
      flip: replicate_add)
  have n: "(3 :: 64 word) \<noteq> - 1" by simp
  from receiver_plane [OF l n] l receiver_sample show ?thesis by simp
qed

text \<open>
  Claim C2 as stated fails for three configured planes: the Image of frame 2 has plane
  0, and 2 modulo 3 is 2.
\<close>

theorem receiver_plane_counterexample:
  "map_sum id (\<lambda>r. map_sum id (\<lambda>(img, h). (img_valid img, img_index img, img_plane img))
                  (Receiver_loadImage r 2 (pooled 32) 9 [Some (replicate 32 0)]))
     (Receiver_new receiver_config) = Inr (Inr (True, 2, 0)) \<and>
   receiver_config ''number_of_planes'' = Some (CInt 3) \<and>
   (2 :: 64 word) mod 3 = 2"
proof -
  have "map_sum id (\<lambda>(img, h). (img_valid img, img_index img, img_plane img))
          (Receiver_loadImage
             \<lparr>numberOfDetectors = 32, numberOfDetectorModules = 2, numberOfProjections = 1,
                bufferSize = 2,
                buffers = (\<lambda>i. if 0 \<le> i \<and> i < 2 then replicate 32 0 else [])\<rparr>
             2 (pooled 32) 9 [Some (replicate 32 0)])
        = Inr (True, 2, 0)"
    unfolding load_sample by (simp add: pooled_def)
  then show ?thesis
    unfolding receiver_sample by (simp add: receiver_config_def)
qed


text \<open>
  On shutdown \<open>loadImage\<close> returns the invalid Image. Where the configured count of
  detectors for each module is the 16 of \<open>loadImage\<close>, the sinogram it writes is the
  one the specification describes, in front of what the pooled buffer held beyond it.
\<close>

lemma loadImage_shutdown: "Receiver_loadImage r (- 1) sino now h = Inr (Image_default, h)"
  by (simp add: Receiver_loadImage_def)

lemma upto_as_upt: "[0 .. int M - 1] = map int [0 ..< M]"
proof (induction M)
  case 0
  then show ?case by simp
next
  case (Suc M)
  have "[0 .. int (Suc M) - 1] = [0 .. int M - 1] @ [int M]"
    using upto_rec2 [of 0 "int M"] by simp
  then show ?case using Suc by simp
qed

lemma drop_past_prefix: "length A = n \<Longrightarrow> n \<le> m \<Longrightarrow> drop m (A @ B) = drop (m - n) B"
  by simp

lemma stitch_upt:
  fixes r :: Receiver and k :: size_type
  defines "w \<equiv> numberOfDetectorsPerModule * numberOfProjections r"
    and "first \<equiv> (unat k mod bufferSize r) * numberOfDetectorsPerModule * numberOfProjections r"
  assumes "a < length h" "h ! a = Some c" "M * w \<le> length c" "j \<le> M"
    and "\<forall>m. j \<le> m \<and> m < M \<longrightarrow> first + w \<le> length (buffers r (int m))"
  shows "stitch r k (map int [j ..< M]) (Some a) h =
           Inr (h[a := Some (take (j * w) c
                  @ concat (map (\<lambda>m. take w (drop first (buffers r (int m)))) [j ..< M])
                  @ drop (M * w) c)])"
  using assms(3-)
proof (induction "M - j" arbitrary: j h c)
  case 0
  then have "j = M" by simp
  with 0 show ?case by (simp add: list_update_same_conv [THEN iffD2, symmetric])
next
  case (Suc n)
  then have jM: "j < M" by simp
  let ?src = "buffers r (int j)"
  let ?c1 = "take (j * w) c @ take w (drop first ?src) @ drop (j * w + w) c"
  let ?h1 = "h[a := Some ?c1]"
  have jw: "j * w + w \<le> M * w"
  proof -
    have "Suc j * w \<le> M * w" using jM by (intro mult_le_mono1) simp
    then show ?thesis by (simp add: add.commute)
  qed
  have src: "first + w \<le> length ?src" using Suc.prems(5) jM by simp
  have len: "length (take w (drop first ?src)) = w" using src by simp
  have cr: "copy_range ?src first w (Some a) (j * w) h = Inr ?h1"
    using Suc.prems(1,2,3) jw src by (simp add: copy_range_def buffer_def)
  have lc1: "length ?c1 = length c"
    using Suc.prems(3) jw len by simp
  have ih: "stitch r k (map int [Suc j ..< M]) (Some a) ?h1 =
           Inr (?h1[a := Some (take (Suc j * w) ?c1
                  @ concat (map (\<lambda>m. take w (drop first (buffers r (int m)))) [Suc j ..< M])
                  @ drop (M * w) ?c1)])"
  proof (rule Suc.hyps(1))
    show "n = M - Suc j" using Suc.hyps(2) by simp
    show "a < length ?h1" using Suc.prems(1) by simp
    show "?h1 ! a = Some ?c1" using Suc.prems(1) by simp
    show "M * w \<le> length ?c1" using Suc.prems(3) lc1 by simp
    show "Suc j \<le> M" using jM by simp
    show "\<forall>m. Suc j \<le> m \<and> m < M \<longrightarrow> first + w \<le> length (buffers r (int m))"
      using Suc.prems(5) by simp
  qed
  have tk: "take (Suc j * w) ?c1 = take (j * w) c @ take w (drop first ?src)"
  proof -
    have "length (take (j * w) c) = j * w" using Suc.prems(3) jw by simp
    then show ?thesis using len by (simp add: add.commute)
  qed
  have dr: "drop (M * w) ?c1 = drop (M * w) c"
  proof -
    have l: "length (take (j * w) c @ take w (drop first ?src)) = j * w + w"
      using Suc.prems(3) jw len by simp
    have "drop (M * w) ((take (j * w) c @ take w (drop first ?src)) @ drop (j * w + w) c) =
            drop (M * w - (j * w + w)) (drop (j * w + w) c)"
      by (rule drop_past_prefix [OF l jw])
    also have "\<dots> = drop (M * w) c" using jw by simp
    finally show ?thesis by simp
  qed
  have "stitch r k (map int [j ..< M]) (Some a) h =
          stitch r k (map int [Suc j ..< M]) (Some a) ?h1"
    using jM cr by (simp add: upt_conv_Cons Let_def w_def first_def ac_simps)
  then show ?case
    unfolding ih tk dr using jM by (simp add: upt_conv_Cons)
qed


lemma loadImage_agrees:
  fixes r :: Receiver and k :: size_type
  defines "w \<equiv> numberOfDetectorsPerModule * numberOfProjections r"
  assumes "numberOfDetectors r div numberOfDetectorModules r = numberOfDetectorsPerModule"
    and "k \<noteq> - 1" and "0 < bufferSize r"
    and "img_data sino = Some a" and "a < length h" and "h ! a = Some c"
    and "numberOfDetectorModules r * w \<le> length c"
    and "\<forall>m. m < numberOfDetectorModules r \<longrightarrow>
           (unat k mod bufferSize r) * numberOfDetectorsPerModule * numberOfProjections r + w
             \<le> length (buffers r (int m))"
  shows "Receiver_loadImage r k sino now h =
           Inr (setStart now (setPlane (k mod 2) (setIdx (ucast k) sino)),
                h[a := Some (stitched_spec r k @ drop (numberOfDetectorModules r * w) c)])"
proof -
  let ?M = "numberOfDetectorModules r"
  let ?first = "(unat k mod bufferSize r) * numberOfDetectorsPerModule * numberOfProjections r"
  have st: "stitch r k (map int [0 ..< ?M]) (Some a) h =
           Inr (h[a := Some (take (0 * w) c
                  @ concat (map (\<lambda>m. take w (drop ?first (buffers r (int m)))) [0 ..< ?M])
                  @ drop (?M * w) c)])"
    unfolding w_def
    by (rule stitch_upt) (use assms(5-) in \<open>simp_all add: w_def\<close>)
  have sp: "stitched_spec r k =
          concat (map (\<lambda>m. take w (drop ?first (buffers r (int m)))) [0 ..< ?M])"
    by (simp add: stitched_spec_def upto_as_upt assms(2) w_def comp_def ac_simps)
  show ?thesis
    using assms(3,4)
    by (simp add: Receiver_loadImage_def upto_as_upt st sp assms(5) Image_move_fst)
qed


text \<open>
  Claim C5, at an input where the code departs from it. With 34 detectors in 2 modules
  a stripe has 17 samples for each module, but \<open>loadImage\<close> copies 16 samples of
  each module, to the offsets 0 and 16: the last sample of each module is missing, the
  second stripe is misplaced and the end of the sinogram is left as the pool handed it
  out. The sinogram the claim describes is \<open>stitched_spec\<close>.
\<close>

theorem stitching_defect:
  "Receiver_loadImage receiver17 0 (pooled 34) 9 [Some (replicate 34 0)] =
     Inr ((pooled 34)\<lparr>img_start := 9\<rparr>,
          [Some [1, 2, 3, 4, 5, 6, 7, 8, 9, 10, 11, 12, 13, 14, 15, 16,
                 101, 102, 103, 104, 105, 106, 107, 108, 109, 110, 111, 112, 113, 114, 115, 116,
                 0, 0]]) \<and>
   stitched_spec receiver17 0 =
     [1, 2, 3, 4, 5, 6, 7, 8, 9, 10, 11, 12, 13, 14, 15, 16, 17,
      101, 102, 103, 104, 105, 106, 107, 108, 109, 110, 111, 112, 113, 114, 115, 116, 117]"
proof (intro conjI)
  show "Receiver_loadImage receiver17 0 (pooled 34) 9 [Some (replicate 34 0)] =
     Inr ((pooled 34)\<lparr>img_start := 9\<rparr>,
          [Some [1, 2, 3, 4, 5, 6, 7, 8, 9, 10, 11, 12, 13, 14, 15, 16,
                 101, 102, 103, 104, 105, 106, 107, 108, 109, 110, 111, 112, 113, 114, 115, 116,
                 0, 0]])"
    by (simp add: Receiver_loadImage_def upto_2 numberOfDetectorsPerModule_def copy_range_def
        buffer_def pooled_def Image_move_def setIdx_def setPlane_def setStart_def
        receiver17_def numeral_2_eq_2)
  show "stitched_spec receiver17 0 =
     [1, 2, 3, 4, 5, 6, 7, 8, 9, 10, 11, 12, 13, 14, 15, 16, 17,
      101, 102, 103, 104, 105, 106, 107, 108, 109, 110, 111, 112, 113, 114, 115, 116, 117]"
    by (simp add: stitched_spec_def receiver17_def upto_2 Let_def)
qed



section \<open>Configuration errors\<close>

text \<open>D2H throws exactly when a key it reads is missing or not an \<open>int\<close>; Template
  throws exactly when its key could be read.\<close>

lemma D2H_new_throws_iff:
  "(\<exists>e. D2H_new cfg devices = Inl e) \<longleftrightarrow>
   (\<exists>e. get_int cfg ''number_of_pixels'' = Inl e) \<or> (\<exists>e. get_int cfg ''mempoolsize_d2h'' = Inl e)"
  by (auto simp: D2H_new_def D2H_readConfig_def to_bool_def EXIT_SUCCESS_def EXIT_FAILURE_def
      split: sum.splits)

lemma Template_new_throws_iff:
  "(\<exists>e. Template_new cfg devices = Inl e) \<longleftrightarrow> (\<exists>n. get_int cfg ''number_of_pixels'' = Inr n)"
  by (auto simp: Template_new_def Template_readConfig_def to_bool_def EXIT_SUCCESS_def
      EXIT_FAILURE_def split: sum.splits)


text \<open>
  Claim C3, at inputs where the code departs from it. For the Template stage
  \<open>readConfig\<close> returns \<open>EXIT_SUCCESS\<close>, that is \<open>false\<close>, when the key
  \<open>number_of_pixels\<close> is read, and the constructor, which tests \<open>!readConfig(...)\<close>,
  throws its runtime error; with the key missing \<open>readConfig\<close> returns
  \<open>EXIT_FAILURE\<close>, that is \<open>true\<close>, and the constructor does not throw.
\<close>

theorem template_config_inverted:
  "Template_readConfig sample_config = (to_bool EXIT_SUCCESS, Some 256) \<and>
   to_bool EXIT_SUCCESS = False \<and>
   Template_new sample_config 1 =
     Inl (RuntimeError ''recoLib::cuda::Template: unable to read config file. Please check!'') \<and>
   Template_readConfig Map.empty = (to_bool EXIT_FAILURE, None) \<and>
   to_bool EXIT_FAILURE = True \<and>
   Template_new Map.empty 1 = Inr (stage_new 1)"
  by (simp add: Template_new_def Template_readConfig_def sample_config_def get_int_def
      to_bool_def EXIT_SUCCESS_def EXIT_FAILURE_def)


section \<open>Slices of a volume\<close>

lemma Volume_at_out_of_range:
  "(\<exists>msg. Volume_at v i h = Inl (OutOfRange msg)) \<longleftrightarrow> vol_depth v \<le> i"
  by (auto simp: Volume_at_def copy_range_def Let_def make_ptr_def
      split: option.splits sum.splits if_splits)


text \<open>
  Claim C10, at an input where the code departs from it. Slice 1 of a volume of 4
  slices of 2 by 3 elements is copied into a new buffer, which the volume's own buffer
  does not share, but the Image returned has size 2 (the width), index 3 (the height)
  and plane 1 (the slice index), not size 6 and index 1.
\<close>

theorem volume_slice_defect:
  "Volume_at volume234 1 store234 =
     Inr (\<lparr>img_size = 2, img_index = 3, img_plane = 1, img_data = Some 1,
           img_memoryPoolIndex = 0, img_start = 0, img_valid = True, img_device = 0\<rparr>,
          store234 @ [Some [6, 7, 8, 9, 10, 11]])"
  by (simp add: Volume_at_def volume234_def store234_def make_ptr_def copy_range_def buffer_def
      Image_new_def Let_def word_le_nat_alt)


section \<open>Images and the memory pool\<close>

lemma unat_pool_index: "unat (ucast (idx :: 32 word) :: 64 word) = unat idx"
  by (simp add: unsigned_ucast_eq take_bit_nat_eq_self unsigned_less [THEN order_less_le_trans])

lemma requestMemory_Some:
  assumes "requestMemory idx p = Some (img, p')"
  shows "unat idx < length p"
    and "free (p ! unat idx) = the (img_data img) # free (p' ! unat idx)"
    and "img_data img \<noteq> None"
    and "img_valid img"
    and "unat (img_memoryPoolIndex img) = unat idx"
    and "p' = p[unat idx := (p ! unat idx)\<lparr>free := free (p' ! unat idx)\<rparr>]"
  using assms
  by (auto simp: requestMemory_def setMemPoolIdx_def unat_pool_index
      split: if_splits list.splits)

text \<open>
  Claim C7. An Image that \<open>requestMemory\<close> returned is valid and its registration
  has one free buffer less; destroying the Image gives every registration the number
  of free buffers it had before the request. The destructor hands a valid Image to
  \<open>returnMemory\<close>, and leaves the pool as it is for an invalid one.
\<close>

theorem pool_roundtrip:
  assumes "requestMemory idx p = Some (img, p')"
  shows "img_valid img \<and>
         Suc (free_count p' (unat idx)) = free_count p (unat idx) \<and>
         (\<forall>j. free_count (Image_destroy img p') j = free_count p j) \<and>
         Image_destroy x q = (if img_valid x then returnMemory x q else q) \<and>
         Image_destroy (invalid img) p' = p'"
proof -
  note r = requestMemory_Some [OF assms]
  obtain a where a: "img_data img = Some a" using r(3) by auto
  have d: "Image_destroy img p' = returnMemory img p'"
    using r(4) by (simp add: Image_destroy_def Image_move_fst)
  have l: "length p' = length p" by (subst r(6)) simp
  have 1: "Suc (free_count p' (unat idx)) = free_count p (unat idx)"
    using r(1) l by (simp add: free_count_def r(2))
  have 2: "free_count (returnMemory img p') j = free_count p j" for j
  proof (cases "j = unat idx")
    case True
    then show ?thesis
      using r(1) l a by (simp add: returnMemory_def free_count_def r(5) r(2) Let_def)
  next
    case False
    have "p' ! j = p ! j" by (subst r(6)) (use False in simp)
    then show ?thesis
      using r(1) l a False by (simp add: returnMemory_def free_count_def r(5) Let_def)
  qed
  have 3: "Image_destroy x q = (if img_valid x then returnMemory x q else q)"
    by (simp add: Image_destroy_def Image_move_fst)
  show ?thesis
    using r(4) 1 2 3 d by (simp add: Image_destroy_def invalid_def)
qed


lemma sample_request:
  "requestMemory 0 [\<lparr>elements = 4, free = [0, 1]\<rparr>] =
     Some (\<lparr>img_size = 4, img_index = 0, img_plane = 0, img_data = Some 0,
             img_memoryPoolIndex = 0, img_start = 0, img_valid = True, img_device = 0\<rparr>,
           [\<lparr>elements = 4, free = [1]\<rparr>])"
  by (simp add: requestMemory_def setMemPoolIdx_def)

text \<open>An instance: a registration of two buffers, one of them requested and given
  back.\<close>

theorem pool_roundtrip_witness:
  "requestMemory 0 [\<lparr>elements = 4, free = [0, 1]\<rparr>] =
     Some (\<lparr>img_size = 4, img_index = 0, img_plane = 0, img_data = Some 0,
             img_memoryPoolIndex = 0, img_start = 0, img_valid = True, img_device = 0\<rparr>,
           [\<lparr>elements = 4, free = [1]\<rparr>]) \<and>
   free_count [\<lparr>elements = 4, free = [0, 1]\<rparr>] 0 = 2 \<and>
   free_count [\<lparr>elements = 4, free = [1]\<rparr>] 0 = 1 \<and>
   free_count (Image_destroy
      \<lparr>img_size = 4, img_index = 0, img_plane = 0, img_data = Some 0,
             img_memoryPoolIndex = 0, img_start = 0, img_valid = True, img_device = 0\<rparr>
      [\<lparr>elements = 4, free = [1]\<rparr>]) 0 = 2"
proof -
  have "free_count (Image_destroy
      \<lparr>img_size = 4, img_index = 0, img_plane = 0, img_data = Some 0,
             img_memoryPoolIndex = 0, img_start = 0, img_valid = True, img_device = 0\<rparr>
      [\<lparr>elements = 4, free = [1]\<rparr>]) 0 = free_count [\<lparr>elements = 4, free = [0, 1]\<rparr>] 0"
    using pool_roundtrip [OF sample_request] by blast
  moreover have "free_count [\<lparr>elements = 4, free = [0, 1]\<rparr>] 0 = 2"
    and "free_count [\<lparr>elements = 4, free = [1]\<rparr>] 0 = 1"
    by (simp_all add: free_count_def)
  ultimately show ?thesis using sample_request by simp
qed


section \<open>Moving and copying Images\<close>

lemma Image_move_assign_this:
  "fst (Image_move_assign this rhs h) = rhs"
  by (simp add: Image_move_assign_def)







end
